theory Spec2Isabelle
  imports Complex_Main "HOL-Library.Sublist" "HOL-Library.Word"
begin

section \<open>Go's float64\<close>

text \<open>
  The telemetry pipeline computes on Go \<^verbatim>\<open>float64\<close> values: IEEE 754 binary64 with
  round-to-nearest, ties-to-even.  A value is a NaN, an infinity, a signed zero, or a
  non-zero rational number that binary64 represents.  Every arithmetic operation computes
  the exact rational result and rounds it once.
\<close>

datatype float64 = NaN | Inf bool | Zero bool | Num rat

text \<open>\<open>Inf True\<close> is \<open>-Inf\<close>, \<open>Zero True\<close> is \<open>-0\<close>.\<close>

definition pow2 :: "int \<Rightarrow> rat" where
  "pow2 k = (if 0 \<le> k then 2 ^ nat k else 1 / 2 ^ nat (- k))"

text \<open>The number of binary digits of a positive integer.\<close>

function bits :: "int \<Rightarrow> int" where
  "bits n = (if n \<le> 0 then 0 else 1 + bits (n div 2))"
  by pat_completeness auto
termination
  by (relation "measure nat") auto

declare bits.simps [simp del]

text \<open>\<open>floor_log2 r\<close> is the exponent \<open>e\<close> with \<open>2^e \<le> r < 2^(e+1)\<close>, for \<open>r > 0\<close>.\<close>

definition floor_log2 :: "rat \<Rightarrow> int" where
  "floor_log2 r =
     (let (a, b) = quotient_of r;
          d = bits a - bits b
      in if pow2 d \<le> r then d else d - 1)"

definition round_half_even :: "rat \<Rightarrow> int" where
  "round_half_even m =
     (let f = \<lfloor>m\<rfloor>; d = m - of_int f
      in if d < 1 / 2 then f
         else if 1 / 2 < d then f + 1
         else if even f then f else f + 1)"

text \<open>
  Rounding an exact result to binary64.  The quantum of a value with exponent \<open>e\<close> is
  \<open>2^(e - 52)\<close>; below the smallest normal exponent \<open>-1022\<close> the quantum stays
  \<open>2^(-1074)\<close> (subnormal numbers).  A result that rounds to \<open>2^1024\<close> or more is an
  infinity.  The flag gives the sign of an exact zero; a result that underflows to zero
  keeps its own sign.
\<close>

definition round_f64 :: "bool \<Rightarrow> rat \<Rightarrow> float64" where
  "round_f64 s r =
     (if r = 0 then Zero s
      else
        let a = \<bar>r\<bar>;
            e = max (floor_log2 a) (- 1022);
            q = pow2 (e - 52);
            n = round_half_even (a / q);
            v = of_int n * q
        in if pow2 1024 \<le> v then Inf (r < 0)
           else if n = 0 then Zero (r < 0)
           else Num (if r < 0 then - v else v))"

text \<open>A numeric constant of the source (\<^verbatim>\<open>1.5\<close>, \<^verbatim>\<open>50.0\<close>) and the conversion
  \<^verbatim>\<open>float64(n)\<close> of an integer both round the exact value.\<close>

definition f64 :: "rat \<Rightarrow> float64" where
  "f64 r = round_f64 False r"

definition float64_of_nat :: "nat \<Rightarrow> float64" where
  "float64_of_nat n = round_f64 False (of_nat n)"

fun isNaN :: "float64 \<Rightarrow> bool" where
  "isNaN NaN = True"
| "isNaN _ = False"

fun signbit :: "float64 \<Rightarrow> bool" where
  "signbit NaN = False"
| "signbit (Inf s) = s"
| "signbit (Zero s) = s"
| "signbit (Num r) = (r < 0)"

text \<open>The value used for comparisons: an infinity lies beyond every finite binary64
  number, whose magnitude is below \<open>2^1024\<close>.\<close>

fun valof :: "float64 \<Rightarrow> rat" where
  "valof NaN = 0"
| "valof (Inf s) = (if s then - pow2 1024 else pow2 1024)"
| "valof (Zero s) = 0"
| "valof (Num r) = r"

text \<open>Comparisons: every ordered comparison with a NaN is false; \<open>-0\<close> equals \<open>+0\<close>.\<close>

definition flt :: "float64 \<Rightarrow> float64 \<Rightarrow> bool" where
  "flt a b \<longleftrightarrow> \<not> isNaN a \<and> \<not> isNaN b \<and> valof a < valof b"

definition fle :: "float64 \<Rightarrow> float64 \<Rightarrow> bool" where
  "fle a b \<longleftrightarrow> \<not> isNaN a \<and> \<not> isNaN b \<and> valof a \<le> valof b"

definition fgt :: "float64 \<Rightarrow> float64 \<Rightarrow> bool" where
  "fgt a b \<longleftrightarrow> flt b a"

definition fge :: "float64 \<Rightarrow> float64 \<Rightarrow> bool" where
  "fge a b \<longleftrightarrow> fle b a"

fun fadd :: "float64 \<Rightarrow> float64 \<Rightarrow> float64" where
  "fadd NaN _ = NaN"
| "fadd _ NaN = NaN"
| "fadd (Inf s) (Inf t) = (if s = t then Inf s else NaN)"
| "fadd (Inf s) _ = Inf s"
| "fadd _ (Inf t) = Inf t"
| "fadd (Zero s) (Zero t) = Zero (s \<and> t)"
| "fadd a b = round_f64 False (valof a + valof b)"

fun fmul :: "float64 \<Rightarrow> float64 \<Rightarrow> float64" where
  "fmul NaN _ = NaN"
| "fmul _ NaN = NaN"
| "fmul (Inf s) (Zero t) = NaN"
| "fmul (Zero s) (Inf t) = NaN"
| "fmul (Inf s) b = Inf (s \<noteq> signbit b)"
| "fmul a (Inf t) = Inf (signbit a \<noteq> t)"
| "fmul a b = round_f64 (signbit a \<noteq> signbit b) (valof a * valof b)"

fun fdiv :: "float64 \<Rightarrow> float64 \<Rightarrow> float64" where
  "fdiv NaN _ = NaN"
| "fdiv _ NaN = NaN"
| "fdiv (Inf s) (Inf t) = NaN"
| "fdiv (Inf s) b = Inf (s \<noteq> signbit b)"
| "fdiv a (Inf t) = Zero (signbit a \<noteq> t)"
| "fdiv (Zero s) (Zero t) = NaN"
| "fdiv a (Zero t) = Inf (signbit a \<noteq> t)"
| "fdiv a b = round_f64 (signbit a \<noteq> signbit b) (valof a / valof b)"

section \<open>Library functions of Go used by the pipeline\<close>

text \<open>Go strings are byte sequences: \<open>string\<close>.  A Go map is either \<^verbatim>\<open>nil\<close> or a
  finite table; ranging over a \<^verbatim>\<open>nil\<close> map visits nothing.\<close>

datatype ('k, 'v) gomap = NilMap | GoMap "'k \<rightharpoonup> 'v"

fun entries :: "('k, 'v) gomap \<Rightarrow> ('k \<rightharpoonup> 'v)" where
  "entries NilMap = Map.empty"
| "entries (GoMap m) = m"

text \<open>\<^verbatim>\<open>time.Time\<close>, as nanoseconds since the Unix epoch.\<close>

type_synonym time = int

text \<open>\<^verbatim>\<open>strings.Split(s, sep)\<close> for a one-byte separator: the pieces of \<open>s\<close> between
  the occurrences of the separator; \<open>n\<close> separators give \<open>n + 1\<close> pieces, so the empty
  string gives one empty piece.\<close>

fun Split :: "string \<Rightarrow> char \<Rightarrow> string list" where
  "Split [] sep = [[]]"
| "Split (c # cs) sep =
     (if c = sep then [] # Split cs sep
      else (case Split cs sep of [] \<Rightarrow> [[c]] | p # ps \<Rightarrow> (c # p) # ps))"

text \<open>Decimal digits of a natural number, and \<^verbatim>\<open>fmt.Sprintf("%.2f", x)\<close>: the exact
  value rounded to two decimals (ties to even), with \<^verbatim>\<open>NaN\<close>, \<^verbatim>\<open>+Inf\<close> and
  \<^verbatim>\<open>-Inf\<close> for the special values.\<close>

definition digit :: "nat \<Rightarrow> char" where
  "digit d = ''0123456789'' ! (d mod 10)"

function decimal :: "nat \<Rightarrow> string" where
  "decimal n = (if n < 10 then [digit n] else decimal (n div 10) @ [digit n])"
  by pat_completeness auto
termination
  by (relation "measure id") auto

declare decimal.simps [simp del]

definition Sprintf_2f :: "float64 \<Rightarrow> string" where
  "Sprintf_2f x =
     (case x of
        NaN \<Rightarrow> ''NaN''
      | Inf s \<Rightarrow> (if s then ''-Inf'' else ''+Inf'')
      | Zero s \<Rightarrow> (if s then ''-0.00'' else ''0.00'')
      | Num r \<Rightarrow>
          (let n = nat (round_half_even (\<bar>r\<bar> * 100))
           in (if r < 0 then ''-'' else []) @ decimal (n div 100) @ ''.''
              @ [digit (n div 10), digit n]))"

text \<open>\<^verbatim>\<open>fmt.Sprintf("%d", i)\<close>.\<close>

definition Sprintf_d :: "int \<Rightarrow> string" where
  "Sprintf_d i = (if i < 0 then ''-'' @ decimal (nat (- i)) else decimal (nat i))"

section \<open>Detector models (detectors package)\<close>

datatype Severity = SeverityLow | SeverityMedium | SeverityHigh | SeverityCritical

datatype SignalType = SignalCrashLoop | SignalOOM | SignalCPUSpike | SignalAnamoly

record IncidentSignal =
  ID :: string
  Type :: SignalType
  Severity :: Severity
  Namespace :: string
  Resource :: string
  Message :: string
  Timestamp :: time
  Metadata :: "(string, string) gomap"

record SignalInput =
  Metrics :: "(string, float64 list) gomap"
  Labels :: "(string, string) gomap"

section \<open>The CPU spike detector (cpu\_spike.go)\<close>

record CPUSpikeDetector =
  Threshold :: float64

definition NewCPUSpikeDetector :: "float64 \<Rightarrow> CPUSpikeDetector" where
  "NewCPUSpikeDetector threshold = \<lparr>Threshold = threshold\<rparr>"

text \<open>\<^verbatim>\<open>average\<close>: the sum starts at \<open>+0\<close> and adds the values from left to right,
  rounding after each addition; the quotient is rounded once more.\<close>

definition average :: "float64 list \<Rightarrow> float64" where
  "average values =
     (if length values = 0 then Zero False
      else fdiv (foldl fadd (Zero False) values) (float64_of_nat (length values)))"

definition parseKey :: "string \<Rightarrow> string \<times> string" where
  "parseKey key =
     (let parts = Split key CHR '':''
      in if length parts = 3 then (parts ! 1, parts ! 2)
         else if length parts = 2 then ([], parts ! 1)
         else ([], ''unknown''))"

text \<open>\<^verbatim>\<open>ClassifySeverity\<close>: a \<^verbatim>\<open>switch\<close> whose cases are tried in order; each cutoff
  is the float64 product of the threshold and a constant.\<close>

definition ClassifySeverity :: "float64 \<Rightarrow> float64 \<Rightarrow> Severity" where
  "ClassifySeverity avg threshold =
     (if fge avg (fmul threshold (f64 (3 / 2))) then SeverityCritical
      else if fge avg (fmul threshold (f64 (6 / 5))) then SeverityHigh
      else if fge avg (fmul threshold (f64 (11 / 10))) then SeverityMedium
      else SeverityLow)"

text \<open>The signal that \<^verbatim>\<open>Detect\<close> builds for a key whose average \<open>avg\<close> exceeds the
  threshold; \<open>now\<close> is the reading of the clock (\<^verbatim>\<open>time.Now()\<close>).  The \<^verbatim>\<open>ID\<close> field
  is not set and keeps the empty string.\<close>

definition spike_signal :: "CPUSpikeDetector \<Rightarrow> time \<Rightarrow> string \<Rightarrow> float64 \<Rightarrow> IncidentSignal" where
  "spike_signal d now key avg =
     (let (namespace, resource) = parseKey key
      in \<lparr>ID = [],
          Type = SignalCPUSpike,
          Severity = ClassifySeverity avg (Threshold d),
          Namespace = namespace,
          Resource = resource,
          Message = ''CPU spike detected: average usage '' @ Sprintf_2f avg
                    @ '' millicores exceeds threshold '' @ Sprintf_2f (Threshold d),
          Timestamp = now,
          Metadata = GoMap [''average_cpu_millicores'' \<mapsto> Sprintf_2f avg,
                            ''threshold_millicores'' \<mapsto> Sprintf_2f (Threshold d)]\<rparr>)"

text \<open>
  \<^verbatim>\<open>Detect\<close> ranges over the map \<^verbatim>\<open>input.Metrics\<close>.  Go leaves the order of that
  iteration unspecified, and \<^verbatim>\<open>time.Now()\<close> reads the clock: both are arguments of the
  model.  \<open>order\<close> is the sequence in which the run-time system hands out the keys; it is
  a \<open>range_order\<close> of the map when it lists every key of the map exactly once.  The
  result is Go's pair of a pointer (\<open>None\<close> is \<^verbatim>\<open>nil\<close>) and a flag.
\<close>

definition range_order :: "'k list \<Rightarrow> ('k, 'v) gomap \<Rightarrow> bool" where
  "range_order order m \<longleftrightarrow> distinct order \<and> set order = dom (entries m)"

fun Detect_loop ::
  "CPUSpikeDetector \<Rightarrow> time \<Rightarrow> (string \<rightharpoonup> float64 list) \<Rightarrow> string list
     \<Rightarrow> IncidentSignal option \<times> bool" where
  "Detect_loop d now m [] = (None, False)"
| "Detect_loop d now m (key # rest) =
     (case m key of
        None \<Rightarrow> Detect_loop d now m rest
      | Some values \<Rightarrow>
          if \<not> prefix ''cpu:'' key then Detect_loop d now m rest
          else
            let avg = average values
            in if fgt avg (Threshold d) then (Some (spike_signal d now key avg), True)
               else Detect_loop d now m rest)"

definition Detect ::
  "CPUSpikeDetector \<Rightarrow> time \<Rightarrow> string list \<Rightarrow> SignalInput \<Rightarrow> IncidentSignal option \<times> bool" where
  "Detect d now order input = Detect_loop d now (entries (Metrics input)) order"

section \<open>The aggregator (aggregator.go)\<close>

text \<open>Modelled from the spec: the declaration of the struct \<^verbatim>\<open>Metric\<close> (package metrics)
  is not among the sources; the aggregator reads its fields \<^verbatim>\<open>Type\<close>, \<^verbatim>\<open>Namespace\<close>,
  \<^verbatim>\<open>Resource\<close>, \<^verbatim>\<open>Value\<close> and \<^verbatim>\<open>Labels\<close>, which the spec gives as
  kind (string), namespace (string, optional), resource (string), value (float) and
  labels (mapping from string to string).\<close>

record Metric =
  Type :: string
  Namespace :: string
  Resource :: string
  Value :: float64
  Labels :: "(string, string) gomap"

definition buildMetricKey :: "Metric \<Rightarrow> string" where
  "buildMetricKey m =
     (if Metric.Namespace m \<noteq> []
      then Metric.Type m @ '':'' @ Metric.Namespace m @ '':'' @ Metric.Resource m
      else Metric.Type m @ '':'' @ Metric.Resource m)"

text \<open>One pass of the loop of \<^verbatim>\<open>AggregateMetrics\<close> over the two maps under
  construction: the value is appended to the sequence stored under the key (a missing
  key reads as the empty sequence), and every label of the metric is written into
  \<open>labels\<close>, overwriting an earlier value of the same label.\<close>

definition aggregate_step ::
  "(string \<rightharpoonup> float64 list) \<times> (string \<rightharpoonup> string) \<Rightarrow> Metric
     \<Rightarrow> (string \<rightharpoonup> float64 list) \<times> (string \<rightharpoonup> string)" where
  "aggregate_step acc m =
     (let (aggregated, labels) = acc;
          key = buildMetricKey m
      in (aggregated(key \<mapsto> (case aggregated key of None \<Rightarrow> [] | Some vs \<Rightarrow> vs) @ [Value m]),
          labels ++ entries (Metric.Labels m)))"

definition AggregateMetrics :: "Metric list \<Rightarrow> SignalInput" where
  "AggregateMetrics metrics =
     (let (aggregated, labels) = foldl aggregate_step (Map.empty, Map.empty) metrics
      in \<lparr>Metrics = GoMap aggregated, Labels = GoMap labels\<rparr>)"

section \<open>Configuration (config.go)\<close>

text \<open>\<^verbatim>\<open>time.Duration\<close> is a signed 64-bit count of nanoseconds.\<close>

record Config =
  ServiceName :: string
  Environment :: string
  ClusterName :: string
  PollInterval :: "64 word"
  EventSinkURL :: string
  EventTimeout :: "64 word"
  HTTPPort :: string
  CPUThreshold :: float64

text \<open>\<^verbatim>\<open>log.Fatal\<close> prints its message and ends the process with exit status 1, so
  \<^verbatim>\<open>validate\<close> stops at the first check that fails.\<close>

datatype fatal = Fatal string

definition validate :: "Config \<Rightarrow> fatal + unit" where
  "validate cfg =
     (if EventSinkURL cfg = [] then Inl (Fatal ''EVENT_SINK_URL is required'')
      else if sint (PollInterval cfg) \<le> 0 then Inl (Fatal ''POLL_INTERVAL must be greater than 0'')
      else if sint (EventTimeout cfg) \<le> 0 then Inl (Fatal ''EVENT_TIMEOUT must be greater than 0'')
      else if HTTPPort cfg = [] then Inl (Fatal ''HTTP_PORT is required'')
      else if fle (CPUThreshold cfg) (f64 0) then Inl (Fatal ''CPU_THRESHOLD must be greater than 0'')
      else Inr ())"

section \<open>The publisher (publisher.go)\<close>

record Event =
  ID :: string
  Type :: string
  Severity :: string
  Namespace :: string
  Resource :: string
  Message :: string
  Timestamp :: time
  Metadata :: "(string, string) gomap"
  Source :: string

text \<open>The conversions \<^verbatim>\<open>string(signal.Type)\<close> and \<^verbatim>\<open>string(signal.Severity)\<close> give the
  string constants of the two enumerations.\<close>

fun string_of_SignalType :: "SignalType \<Rightarrow> string" where
  "string_of_SignalType SignalCrashLoop = ''crash_loop''"
| "string_of_SignalType SignalOOM = ''oom''"
| "string_of_SignalType SignalCPUSpike = ''cpu_spike''"
| "string_of_SignalType SignalAnamoly = ''anamoly''"

fun string_of_Severity :: "Severity \<Rightarrow> string" where
  "string_of_Severity SeverityLow = ''low''"
| "string_of_Severity SeverityMedium = ''medium''"
| "string_of_Severity SeverityHigh = ''high''"
| "string_of_Severity SeverityCritical = ''critical''"

record Request =
  Method :: string
  URL :: string
  Body :: string
  Header :: "string \<rightharpoonup> string"

record Response =
  StatusCode :: int
  ResponseBody :: string

text \<open>
  \<^verbatim>\<open>Publish\<close> calls into the uuid, json and http libraries; what these calls return is
  not decided by the program, so their results are the fields of \<open>Net\<close>, an argument of
  the model.  A library call that returns \<^verbatim>\<open>(value, error)\<close> is a sum, \<open>Inl\<close> carrying
  the text of the error.  \<open>Decode\<close> gives the decoded response object with each value
  as \<^verbatim>\<open>%v\<close> prints it.
\<close>

record Net =
  NewString :: string
  Marshal :: "Event \<Rightarrow> string + string"
  NewRequestWithContext :: "string \<Rightarrow> string \<Rightarrow> string \<Rightarrow> string + Request"
  Do :: "Request \<Rightarrow> string + Response"
  Decode :: "string \<Rightarrow> string + (string \<rightharpoonup> string)"

record Publisher =
  sinkURL :: string
  source :: string

text \<open>The four errors \<^verbatim>\<open>Publish\<close> returns, in the order of its \<^verbatim>\<open>return\<close>
  statements; each wraps the text of the library's error or the status code.\<close>

datatype PublishError =
    MarshalFailed string
  | CreateRequestFailed string
  | PublishFailed string
  | UnexpectedStatus int

fun Error :: "PublishError \<Rightarrow> string" where
  "Error (MarshalFailed e) = ''failed to marshal event: '' @ e"
| "Error (CreateRequestFailed e) = ''failed to create request: '' @ e"
| "Error (PublishFailed e) = ''failed to publish event: '' @ e"
| "Error (UnexpectedStatus c) = ''unexpected status code: '' @ Sprintf_d c"

text \<open>A call either panics (here: the \<^verbatim>\<open>nil\<close> signal is dereferenced) or returns.\<close>

datatype 'a outcome = Panic | Return 'a

text \<open>\<^verbatim>\<open>%v\<close> of a map entry: an absent key reads as \<^verbatim>\<open>nil\<close>.\<close>

definition Sprintf_v :: "(string \<rightharpoonup> string) \<Rightarrow> string \<Rightarrow> string" where
  "Sprintf_v m k = (case m k of None \<Rightarrow> ''<nil>'' | Some v \<Rightarrow> v)"

definition newline :: string where
  "newline = [CHR 0x0A]"

text \<open>The event that \<^verbatim>\<open>Publish\<close> builds from the signal: a fresh identifier, the fields
  of the signal, and the name of the service as the source.\<close>

definition event_of :: "Publisher \<Rightarrow> Net \<Rightarrow> IncidentSignal \<Rightarrow> Event" where
  "event_of p net sig =
     \<lparr>Event.ID = NewString net,
      Event.Type = string_of_SignalType (IncidentSignal.Type sig),
      Event.Severity = string_of_Severity (IncidentSignal.Severity sig),
      Event.Namespace = IncidentSignal.Namespace sig,
      Event.Resource = IncidentSignal.Resource sig,
      Event.Message = IncidentSignal.Message sig,
      Event.Timestamp = IncidentSignal.Timestamp sig,
      Event.Metadata = IncidentSignal.Metadata sig,
      Event.Source = source p\<rparr>"

text \<open>\<^verbatim>\<open>Publish\<close> returns Go's \<^verbatim>\<open>error\<close> (\<open>None\<close> is \<^verbatim>\<open>nil\<close>) together with the text
  it has written to the standard output.  The statements run in the order of the source:
  marshal the event, build the request, set the content type, send, check the status,
  then try to decode the body.\<close>

definition Publish ::
  "Publisher \<Rightarrow> Net \<Rightarrow> IncidentSignal option \<Rightarrow> PublishError option outcome \<times> string" where
  "Publish p net signal =
     (case signal of
        None \<Rightarrow> (Panic, [])
      | Some sig \<Rightarrow>
          (case Marshal net (event_of p net sig) of
             Inl err \<Rightarrow> (Return (Some (MarshalFailed err)), [])
           | Inr body \<Rightarrow>
               (case NewRequestWithContext net ''POST'' (sinkURL p) body of
                  Inl err \<Rightarrow> (Return (Some (CreateRequestFailed err)), [])
                | Inr req \<Rightarrow>
                    (case Do net (req\<lparr>Header := (Header req)(''Content-Type'' \<mapsto> ''application/json'')\<rparr>) of
                       Inl err \<Rightarrow> (Return (Some (PublishFailed err)), [])
                     | Inr resp \<Rightarrow>
                         if StatusCode resp < 200 \<or> StatusCode resp \<ge> 300
                         then (Return (Some (UnexpectedStatus (StatusCode resp))), [])
                         else
                           (case Decode net (ResponseBody resp) of
                              Inr responseMap \<Rightarrow>
                                (Return None,
                                 newline @ ''--- Agent Response ---'' @ newline
                                 @ ''Decision: '' @ Sprintf_v responseMap ''decision'' @ newline
                                 @ ''Message: '' @ Sprintf_v responseMap ''message'' @ newline
                                 @ ''----------------------'' @ newline)
                            | Inl err \<Rightarrow>
                                (Return None,
                                 ''Agent response received (non-JSON).'' @ newline))))))"

section \<open>Vocabulary of the properties\<close>

text \<open>A key \<open>breaches\<close> when it is in the map, carries the prefix \<^verbatim>\<open>cpu:\<close> and the
  average of its values is greater than the threshold; \<open>signal_of\<close> is the signal built
  for such a key.\<close>

definition breaching :: "CPUSpikeDetector \<Rightarrow> (string \<rightharpoonup> float64 list) \<Rightarrow> string \<Rightarrow> bool" where
  "breaching d m key =
     (case m key of
        None \<Rightarrow> False
      | Some values \<Rightarrow> prefix ''cpu:'' key \<and> fgt (average values) (Threshold d))"

definition signal_of ::
  "CPUSpikeDetector \<Rightarrow> time \<Rightarrow> (string \<rightharpoonup> float64 list) \<Rightarrow> string \<Rightarrow> IncidentSignal" where
  "signal_of d now m key =
     spike_signal d now key (average (case m key of None \<Rightarrow> [] | Some values \<Rightarrow> values))"

text \<open>The inverse of \<open>Split\<close>: the pieces joined by the separator.\<close>

fun Join :: "string list \<Rightarrow> char \<Rightarrow> string" where
  "Join [] sep = []"
| "Join [p] sep = p"
| "Join (p # q # ps) sep = p @ sep # Join (q # ps) sep"

text \<open>The triple a composite key stands for, the metrics none of whose three fields
  contains the separator, and the values of the metrics with a given key, in the order
  of the input.\<close>

definition triple :: "Metric \<Rightarrow> string \<times> string \<times> string" where
  "triple m = (Metric.Type m, Metric.Namespace m, Metric.Resource m)"

definition colon_free :: "Metric \<Rightarrow> bool" where
  "colon_free m \<longleftrightarrow>
     CHR '':'' \<notin> set (Metric.Type m) \<and> CHR '':'' \<notin> set (Metric.Namespace m) \<and>
     CHR '':'' \<notin> set (Metric.Resource m)"

definition values_of :: "string \<Rightarrow> Metric list \<Rightarrow> float64 list" where
  "values_of key metrics = map Value (filter (\<lambda>m. buildMetricKey m = key) metrics)"


text \<open>What \<^verbatim>\<open>client.Do\<close> returned, when \<^verbatim>\<open>Publish\<close> got as far as sending the request:
  the HTTP exchange of the call.\<close>

definition exchange :: "Publisher \<Rightarrow> Net \<Rightarrow> IncidentSignal \<Rightarrow> (string + Response) option" where
  "exchange p net sig =
     (case Marshal net (event_of p net sig) of
        Inl err \<Rightarrow> None
      | Inr body \<Rightarrow>
          (case NewRequestWithContext net ''POST'' (sinkURL p) body of
             Inl err \<Rightarrow> None
           | Inr req \<Rightarrow>
               Some (Do net (req\<lparr>Header := (Header req)(''Content-Type'' \<mapsto> ''application/json'')\<rparr>))))"

section \<open>Example inputs\<close>

text \<open>Concrete detectors, inputs and configurations at which the properties below are
  instantiated.\<close>

definition detector_50 :: CPUSpikeDetector where
  "detector_50 = NewCPUSpikeDetector (Num 50)"

definition two_spikes :: SignalInput where
  "two_spikes =
     \<lparr>Metrics = GoMap [''cpu:a'' \<mapsto> [Num 100], ''cpu:b'' \<mapsto> [Num 100]],
      SignalInput.Labels = GoMap Map.empty\<rparr>"

definition mixed_input :: SignalInput where
  "mixed_input =
     \<lparr>Metrics = GoMap [''mem:x'' \<mapsto> [Num 900], ''cpu:a'' \<mapsto> [Num 40],
                       ''cpu:default:nginx'' \<mapsto> [Num 100, Num 120], ''cpu:b'' \<mapsto> [Num 80]],
      SignalInput.Labels = GoMap Map.empty\<rparr>"



definition metric_flat :: Metric where
  "metric_flat = \<lparr>Metric.Type = ''cpu'', Metric.Namespace = [], Metric.Resource = ''a:b'',
                   Value = Num 1, Metric.Labels = NilMap\<rparr>"

definition metric_nested :: Metric where
  "metric_nested = \<lparr>Metric.Type = ''cpu'', Metric.Namespace = ''a'', Metric.Resource = ''b'',
                     Value = Num 2, Metric.Labels = NilMap\<rparr>"

definition nginx_sample :: "rat \<Rightarrow> Metric" where
  "nginx_sample v = \<lparr>Metric.Type = ''cpu'', Metric.Namespace = ''default'',
                      Metric.Resource = ''nginx'', Value = Num v,
                      Metric.Labels = GoMap [''app'' \<mapsto> ''nginx'']\<rparr>"

definition etcd_sample :: "rat \<Rightarrow> Metric" where
  "etcd_sample v = \<lparr>Metric.Type = ''cpu'', Metric.Namespace = [],
                     Metric.Resource = ''etcd'', Value = Num v, Metric.Labels = NilMap\<rparr>"

text \<open>The configuration that \<^verbatim>\<open>Load\<close> builds when no variable is set.\<close>

definition good_config :: Config where
  "good_config =
     \<lparr>ServiceName = ''telemetry-service'', Environment = ''development'', ClusterName = [],
      PollInterval = 30000000000, EventSinkURL = ''http://localhost:8080/events'',
      EventTimeout = 180000000000, HTTPPort = ''8080'', CPUThreshold = Num 50\<rparr>"

definition nginx_spike :: IncidentSignal where
  "nginx_spike = spike_signal detector_50 0 ''cpu:default:nginx'' (Num 110)"

text \<open>A network in which the sink answers every request with status 200 and a body
  that is not JSON, and in which a request cannot be built for the address \<^verbatim>\<open>:\<close>,
  which has no scheme.\<close>

definition plain_text_net :: Net where
  "plain_text_net =
     \<lparr>NewString = ''0b6e4c1a'',
      Marshal = (\<lambda>event. Inr ''{}''),
      NewRequestWithContext = (\<lambda>method url body.
         if url = '':'' then Inl ''missing protocol scheme''
         else Inr \<lparr>Method = method, URL = url, Body = body, Header = Map.empty\<rparr>),
      Do = (\<lambda>req. Inr \<lparr>StatusCode = 200, ResponseBody = ''OK''\<rparr>),
      Decode = (\<lambda>body. Inl ''invalid character'')\<rparr>"

section \<open>Properties of the float64 model\<close>

lemma pow2_powi: "pow2 k = 2 powi k"
proof (cases "0 \<le> k")
  case True
  then show ?thesis by (simp add: pow2_def power_int_nonneg_exp)
next
  case False
  then have "(2::rat) powi k = 1 / 2 powi (- k)"
    using power_int_minus_divide [of "2::rat" "- k"] by simp
  with False show ?thesis by (simp add: pow2_def power_int_nonneg_exp)
qed

lemma pow2_pos: "0 < pow2 k"
  by (simp add: pow2_def)

lemma pow2_add: "pow2 (a + b) = pow2 a * pow2 b"
  by (simp add: pow2_powi power_int_add)

lemma pow2_mono: "a \<le> b \<Longrightarrow> pow2 a \<le> pow2 b"
  by (simp add: pow2_powi power_int_increasing)

lemma pow2_nat: "pow2 (int n) = 2 ^ n"
  by (simp add: pow2_def)

lemma bits_bounds:
  "0 < n \<Longrightarrow> 1 \<le> bits n \<and> 2 ^ nat (bits n - 1) \<le> n \<and> n < 2 ^ nat (bits n)"
proof (induction n rule: bits.induct)
  case (1 n)
  show ?case
  proof (cases "n = 1")
    case True
    then show ?thesis by (simp add: bits.simps)
  next
    case False
    with "1.prems" have h: "0 < n div 2" by simp
    with "1.IH" "1.prems" have ih: "1 \<le> bits (n div 2)"
      "2 ^ nat (bits (n div 2) - 1) \<le> n div 2" "n div 2 < 2 ^ nat (bits (n div 2))"
      by simp_all
    have b: "bits n = 1 + bits (n div 2)"
      using "1.prems" by (simp add: bits.simps)
    have e: "nat (bits n - 1) = Suc (nat (bits (n div 2) - 1))"
      "nat (bits n) = Suc (nat (bits (n div 2)))"
      using ih(1) b by simp_all
    have d: "2 * (n div 2) \<le> n" "n < 2 * (n div 2) + 2"
      by presburger+
    have "2 * 2 ^ nat (bits (n div 2) - 1) \<le> n"
      using ih(2) d(1) by linarith
    moreover have "n < 2 * 2 ^ nat (bits (n div 2))"
      using ih(3) d(2) by linarith
    ultimately show ?thesis
      using ih(1) b unfolding e by simp
  qed
qed

lemma of_int_bits_bounds:
  assumes "0 < n"
  shows "pow2 (bits n - 1) \<le> of_int n" "of_int n < pow2 (bits n)"
proof -
  from bits_bounds [OF assms]
  have b: "1 \<le> bits n" "2 ^ nat (bits n - 1) \<le> n" "n < 2 ^ nat (bits n)"
    by simp_all
  have "pow2 (bits n - 1) = of_int (2 ^ nat (bits n - 1))"
    using b(1) by (simp add: pow2_def)
  also have "\<dots> \<le> of_int n"
    using b(2) by (simp only: of_int_le_iff)
  finally show "pow2 (bits n - 1) \<le> of_int n" .
  have "(of_int n :: rat) < of_int (2 ^ nat (bits n))"
    using b(3) by (simp only: of_int_less_iff)
  also have "\<dots> = pow2 (bits n)"
    using b(1) by (simp add: pow2_def)
  finally show "of_int n < pow2 (bits n)" .
qed

text \<open>\<open>floor_log2\<close> finds the binary exponent of a positive rational number, and that
  exponent is unique.\<close>

lemma floor_log2_bounds:
  assumes "0 < r"
  shows "pow2 (floor_log2 r) \<le> r \<and> r < pow2 (floor_log2 r + 1)"
proof -
  obtain a b where q: "quotient_of r = (a, b)"
    by (cases "quotient_of r")
  have b: "0 < b"
    using q by (rule quotient_of_denom_pos)
  have r: "r = of_int a / of_int b"
    using q by (rule quotient_of_div)
  have a: "0 < a"
    using assms b unfolding r by (simp add: zero_less_divide_iff)
  define d where "d = bits a - bits b"
  note ba = of_int_bits_bounds [OF a] and bb = of_int_bits_bounds [OF b]
  have pb: "(0::rat) < of_int b"
    using b by simp
  have "r < pow2 (bits a) / pow2 (bits b - 1)"
    unfolding r using a ba(2) bb(1) pb pow2_pos [of "bits b - 1"]
    by (intro frac_less) simp_all
  also have "\<dots> = pow2 (d + 1)"
    using pow2_add [of "d + 1" "bits b - 1"] pow2_pos [of "bits b - 1"]
    by (simp add: d_def field_simps)
  finally have up: "r < pow2 (d + 1)" .
  have "pow2 (d - 1) = pow2 (bits a - 1) / pow2 (bits b)"
    using pow2_add [of "d - 1" "bits b"] pow2_pos [of "bits b"]
    by (simp add: d_def field_simps)
  also have "\<dots> \<le> r"
    unfolding r using ba(1) bb(2) pb pow2_pos [of "bits a - 1"]
    by (intro frac_le) simp_all
  finally have lo: "pow2 (d - 1) \<le> r" .
  have f: "floor_log2 r = (if pow2 d \<le> r then d else d - 1)"
    by (simp add: floor_log2_def q d_def Let_def)
  show ?thesis
    using up lo by (simp add: f)
qed

lemma floor_log2_unique:
  assumes "pow2 e \<le> r" and "r < pow2 (e + 1)"
  shows "floor_log2 r = e"
proof -
  have "0 < r"
    using assms(1) pow2_pos [of e] by simp
  from floor_log2_bounds [OF this]
  have b: "pow2 (floor_log2 r) \<le> r" "r < pow2 (floor_log2 r + 1)"
    by simp_all
  have "\<not> e + 1 \<le> floor_log2 r"
    using pow2_mono [of "e + 1" "floor_log2 r"] b(1) assms(2) by auto
  moreover have "\<not> floor_log2 r + 1 \<le> e"
    using pow2_mono [of "floor_log2 r + 1" e] b(2) assms(1) by auto
  ultimately show ?thesis by simp
qed

text \<open>An integer within half a unit of \<open>m\<close> is what \<open>m\<close> rounds to.\<close>

lemma round_half_even_unique:
  assumes "\<bar>m - of_int n\<bar> < 1 / 2"
  shows "round_half_even m = n"
proof (cases "of_int n \<le> m")
  case True
  with assms have "\<lfloor>m\<rfloor> = n"
    by (intro floor_unique) auto
  with True assms show ?thesis
    by (simp add: round_half_even_def Let_def)
next
  case False
  with assms have f: "\<lfloor>m\<rfloor> = n - 1"
    by (intro floor_unique) auto
  with False assms show ?thesis
    by (auto simp: round_half_even_def Let_def)
qed

text \<open>Rounding checked from a certificate: the exponent \<open>e\<close> of a normal number and the
  53-bit significand \<open>n\<close> nearest to the scaled magnitude.\<close>

lemma round_f64_cert:
  assumes "pow2 e \<le> \<bar>r\<bar>" and "\<bar>r\<bar> < pow2 (e + 1)" and "- 1022 \<le> e" and "e < 1024"
    and "\<bar>\<bar>r\<bar> / pow2 (e - 52) - of_int n\<bar> < 1 / 2" and "n < 2 ^ 53"
  shows "round_f64 s r =
    Num (if r < 0 then - (of_int n * pow2 (e - 52)) else of_int n * pow2 (e - 52))"
proof -
  have r0: "r \<noteq> 0"
    using assms(1) pow2_pos [of e] by auto
  have e: "floor_log2 \<bar>r\<bar> = e"
    using assms(1,2) by (rule floor_log2_unique)
  have m: "max e (- 1022) = e"
    using assms(3) by simp
  have n: "round_half_even (\<bar>r\<bar> / pow2 (e - 52)) = n"
    using assms(5) by (rule round_half_even_unique)
  have "pow2 e = pow2 (52 + (e - 52))"
    by simp
  also have "\<dots> = pow2 52 * pow2 (e - 52)"
    by (rule pow2_add)
  finally have q: "pow2 e = 2 ^ 52 * pow2 (e - 52)"
    using pow2_nat [of 52] by simp
  have "2 ^ 52 \<le> \<bar>r\<bar> / pow2 (e - 52)"
    using assms(1) pow2_pos [of "e - 52"] by (simp add: q pos_le_divide_eq)
  moreover have "(1::rat) \<le> 2 ^ 52"
    by simp
  ultimately have "(0::rat) < of_int n"
    using assms(5) by linarith
  then have n0: "0 < n" by simp
  have "(of_int n :: rat) < 2 ^ 53"
    using assms(6) of_int_less_iff [of n "2 ^ 53", where ?'a = rat] by simp
  then have "of_int n * pow2 (e - 52) < 2 ^ 53 * pow2 (e - 52)"
    using pow2_pos [of "e - 52"] by simp
  also have "\<dots> = pow2 53 * pow2 (e - 52)"
    using pow2_nat [of 53] by simp
  also have "\<dots> = pow2 (53 + (e - 52))"
    by (rule pow2_add [symmetric])
  also have "\<dots> = pow2 (e + 1)"
    by (simp add: add.commute)
  also have "\<dots> \<le> pow2 1024"
    using assms(4) by (intro pow2_mono) simp
  finally have v: "\<not> pow2 1024 \<le> of_int n * pow2 (e - 52)"
    by simp
  show ?thesis
    unfolding round_f64_def Let_def e m n
    using r0 n0 v by simp
qed




text \<open>Integers below \<open>2^53\<close> are represented exactly, so constants such as \<^verbatim>\<open>50.0\<close> and
  the conversion of a length lose nothing.\<close>

lemma round_f64_int:
  assumes "0 < k" and "k < 2 ^ 53"
  shows "round_f64 s (of_int k) = Num (of_int k)"
proof -
  define e where "e = floor_log2 (of_int k)"
  have "(0::rat) < of_int k"
    using assms(1) by simp
  from floor_log2_bounds [OF this]
  have b: "pow2 e \<le> of_int k" "of_int k < pow2 (e + 1)"
    by (simp_all add: e_def)
  have k1: "pow2 0 \<le> of_int k"
    using assms(1) by (simp add: pow2_def)
  have k53: "(of_int k :: rat) < pow2 53"
    using assms(2) of_int_less_iff [of k "2 ^ 53", where ?'a = rat] pow2_nat [of 53] by simp
  have e0: "0 \<le> e"
    using pow2_mono [of "e + 1" 0] b(2) k1 by force
  have e52: "e \<le> 52"
    using pow2_mono [of 53 e] b(1) k53 by force
  define n where "n = k * 2 ^ nat (52 - e)"
  have p: "pow2 (52 - e) = of_int (2 ^ nat (52 - e))"
    using e52 by (simp add: pow2_def)
  have i: "pow2 (52 - e) * pow2 (e - 52) = 1"
    using pow2_add [of "52 - e" "e - 52"] by (simp add: pow2_def)
  have n: "(of_int n :: rat) = of_int k * pow2 (52 - e)"
    by (simp add: n_def p)
  have m: "(of_int k :: rat) / pow2 (e - 52) = of_int n"
    using i pow2_pos [of "e - 52"] by (simp add: n field_simps)
  have "(of_int n :: rat) < pow2 (e + 1) * pow2 (52 - e)"
    unfolding n using b(2) pow2_pos [of "52 - e"] by simp
  also have "\<dots> = pow2 53"
    using pow2_add [of "e + 1" "52 - e"] by simp
  finally have "(of_int n :: rat) < of_int (2 ^ 53)"
    using pow2_nat [of 53] by simp
  then have n53: "n < 2 ^ 53"
    by (simp only: of_int_less_iff)
  have v: "of_int n * pow2 (e - 52) = (of_int k :: rat)"
    using i by (simp add: n mult.assoc)
  have "round_f64 s (of_int k) =
      Num (if (of_int k :: rat) < 0 then - (of_int n * pow2 (e - 52)) else of_int n * pow2 (e - 52))"
    using assms(1) b e0 e52 n53 by (intro round_f64_cert) (simp_all add: m)
  then show ?thesis
    using assms(1) by (simp add: v)
qed

lemma round_f64_numeral [simp]:
  "(numeral w :: int) < 2 ^ 53 \<Longrightarrow> round_f64 s (numeral w) = Num (numeral w)"
  using round_f64_int [of "numeral w" s] by simp

lemma round_f64_1 [simp]: "round_f64 s 1 = Num 1"
  using round_f64_int [of 1 s] by simp

text \<open>The constants of \<^verbatim>\<open>ClassifySeverity\<close>: \<^verbatim>\<open>1.5\<close> is a binary64 number, \<^verbatim>\<open>1.2\<close> and
  \<^verbatim>\<open>1.1\<close> are not and stand for their nearest neighbours.\<close>

lemma f64_3_2: "f64 (3 / 2) = Num (3 / 2)"
  unfolding f64_def
  using round_f64_cert [of 0 "3 / 2" 6755399441055744 False]
  by (simp add: pow2_def)

lemma f64_6_5: "f64 (6 / 5) = Num (5404319552844595 / 4503599627370496)"
  unfolding f64_def
  using round_f64_cert [of 0 "6 / 5" 5404319552844595 False]
  by (simp add: pow2_def)

lemma f64_11_10: "f64 (11 / 10) = Num (2476979795053773 / 2251799813685248)"
  unfolding f64_def
  using round_f64_cert [of 0 "11 / 10" 4953959590107546 False]
  by (simp add: pow2_def)

lemma f64_5001_100: "f64 (5001 / 100) = Num (7038281792649953 / 140737488355328)"
  unfolding f64_def
  using round_f64_cert [of 5 "5001 / 100" 7038281792649953 False]
  by (simp add: pow2_def)

text \<open>The three cutoffs for the threshold \<^verbatim>\<open>50.0\<close>.\<close>

lemma cutoff_critical_50: "fmul (Num 50) (f64 (3 / 2)) = Num 75"
  by (simp add: f64_3_2)

lemma cutoff_high_50: "fmul (Num 50) (f64 (6 / 5)) = Num 60"
  unfolding f64_6_5
  using round_f64_cert [of 5 "50 * (5404319552844595 / 4503599627370496)" 8444249301319680 False]
  by (simp add: pow2_def)

lemma cutoff_medium_50:
  "fmul (Num 50) (f64 (11 / 10)) = Num (7740561859543041 / 140737488355328)"
  unfolding f64_11_10
  using round_f64_cert [of 5 "50 * (2476979795053773 / 2251799813685248)" 7740561859543041 False]
  by (simp add: pow2_def)

section \<open>Properties of the library functions\<close>

lemma Split_not_Nil: "Split s sep \<noteq> []"
  by (induction s) (auto split: list.splits)

lemma Split_no_sep: "sep \<notin> set s \<Longrightarrow> Split s sep = [s]"
  by (induction s) auto

lemma Split_append: "sep \<notin> set a \<Longrightarrow> Split (a @ sep # r) sep = a # Split r sep"
  by (induction a) auto

lemma length_Split: "length (Split s sep) = Suc (count_list s sep)"
  by (induction s) (auto split: list.splits simp: Split_not_Nil)

lemma Split_parts_no_sep: "p \<in> set (Split s sep) \<Longrightarrow> sep \<notin> set p"
  by (induction s arbitrary: p) (auto split: if_splits list.splits)

lemma Join_Cons: "Join ((c # p) # ps) sep = c # Join (p # ps) sep"
  by (cases ps) simp_all

lemma Join_Split: "Join (Split s sep) sep = s"
  by (induction s) (auto split: list.splits simp: Split_not_Nil Join_Cons)

section \<open>Properties of the detector\<close>

lemma average_examples:
  "average [Num 100] = Num 100" "average [Num 900] = Num 900" "average [Num 40] = Num 40"
  "average [Num 100, Num 120] = Num 110" "average [Num 80] = Num 80"
  by (simp_all add: average_def float64_of_nat_def)

lemma breaching_mixed:
  "\<not> breaching detector_50 (entries (Metrics mixed_input)) ''mem:x''"
  "\<not> breaching detector_50 (entries (Metrics mixed_input)) ''cpu:a''"
  "breaching detector_50 (entries (Metrics mixed_input)) ''cpu:default:nginx''"
  "breaching detector_50 (entries (Metrics mixed_input)) ''cpu:b''"
  by (simp_all add: breaching_def mixed_input_def detector_50_def NewCPUSpikeDetector_def
      average_examples fgt_def flt_def)

lemma not_breaching_1000:
  "\<forall>key \<in> dom (entries (Metrics mixed_input)).
     \<not> breaching (NewCPUSpikeDetector (Num 1000)) (entries (Metrics mixed_input)) key"
  by (simp add: breaching_def mixed_input_def NewCPUSpikeDetector_def
      average_examples fgt_def flt_def)

lemma breaching_100:
  "breaching (NewCPUSpikeDetector (Num 100)) (entries (Metrics mixed_input)) k
     \<longleftrightarrow> k = ''cpu:default:nginx''"
  by (simp add: breaching_def mixed_input_def NewCPUSpikeDetector_def
      average_examples fgt_def flt_def)




lemma Detect_loop_find:
  "Detect_loop d now m order =
     (case find (breaching d m) order of
        None \<Rightarrow> (None, False)
      | Some key \<Rightarrow> (Some (signal_of d now m key), True))"
  by (induction order) (auto simp: breaching_def signal_of_def Let_def split: option.splits)

lemma find_first:
  "\<forall>k \<in> set pre. \<not> P k \<Longrightarrow> P key \<Longrightarrow> find P (pre @ key # post) = Some key"
  by (induction pre) auto

lemma find_none: "\<forall>k \<in> set xs. \<not> P k \<Longrightarrow> find P xs = None"
  by (induction xs) auto

lemma find_unique:
  assumes "\<forall>k k'. P k \<and> P k' \<longrightarrow> k = k'" "set xs = set ys"
  shows "find P xs = find P ys"
proof (cases "\<exists>k \<in> set xs. P k")
  case True
  then obtain k where k: "k \<in> set xs" "P k" by blast
  have "find P zs = Some k" if "k \<in> set zs" for zs
  proof -
    from that \<open>P k\<close> obtain x where "find P zs = Some x"
      by (cases "find P zs") (auto simp: find_None_iff)
    moreover from this have "P x" by (auto simp: find_Some_iff)
    ultimately show ?thesis using assms(1) \<open>P k\<close> by blast
  qed
  then show ?thesis using k assms(2) by simp
next
  case False
  then have "find P xs = None" "find P ys = None"
    using assms(2) by (simp_all add: find_None_iff)
  then show ?thesis by simp
qed

lemma signal_of_Timestamp:
  "signal_of d now m k\<lparr>IncidentSignal.Timestamp := t\<rparr> = signal_of d t m k"
  by (simp add: signal_of_def spike_signal_def split: prod.splits)

text \<open>
  The scan of \<open>Detect\<close>.  For every input, threshold, clock reading and order in which
  the keys of the map are handed out, \<open>Detect\<close> returns one optional signal:
  \<open>(None, False)\<close> when no key with the prefix \<^verbatim>\<open>cpu:\<close> has a computed average greater
  than the threshold, and otherwise the signal of the first key in the scan order that
  has, whatever comes after it, the scan having stopped there.  The average of no values
  is \<open>+0\<close>.  The average here is the one the code computes, with every addition and the
  division rounded.
\<close>

lemma Detect_first_match:
  assumes "range_order order (Metrics input)"
  shows "average [] = Zero False \<and>
    ((\<forall>key \<in> dom (entries (Metrics input)). \<not> breaching d (entries (Metrics input)) key) \<longrightarrow>
       Detect d now order input = (None, False)) \<and>
    (\<forall>pre key post.
       order = pre @ key # post \<and> breaching d (entries (Metrics input)) key \<and>
       (\<forall>k \<in> set pre. \<not> breaching d (entries (Metrics input)) k) \<longrightarrow>
       Detect d now order input = (Some (signal_of d now (entries (Metrics input)) key), True)) \<and>
    ((\<exists>key \<in> dom (entries (Metrics input)). breaching d (entries (Metrics input)) key) \<longrightarrow>
       (\<exists>pre key post. order = pre @ key # post \<and> breaching d (entries (Metrics input)) key \<and>
          (\<forall>k \<in> set pre. \<not> breaching d (entries (Metrics input)) k)))"
proof -
  let ?m = "entries (Metrics input)"
  have dom: "set order = dom ?m"
    using assms by (simp add: range_order_def)
  have a: "average [] = Zero False"
    by (simp add: average_def)
  have b: "(\<forall>key \<in> dom ?m. \<not> breaching d ?m key) \<longrightarrow> Detect d now order input = (None, False)"
    by (simp add: Detect_def Detect_loop_find find_none dom)
  have c: "\<forall>pre key post.
       order = pre @ key # post \<and> breaching d ?m key \<and> (\<forall>k \<in> set pre. \<not> breaching d ?m k) \<longrightarrow>
       Detect d now order input = (Some (signal_of d now ?m key), True)"
    by (auto simp: Detect_def Detect_loop_find find_first)
  have e: "(\<exists>key \<in> dom ?m. breaching d ?m key) \<longrightarrow>
       (\<exists>pre key post. order = pre @ key # post \<and> breaching d ?m key \<and>
          (\<forall>k \<in> set pre. \<not> breaching d ?m k))"
  proof
    assume "\<exists>key \<in> dom ?m. breaching d ?m key"
    then have "\<exists>key \<in> set order. breaching d ?m key"
      using dom by simp
    then show "\<exists>pre key post. order = pre @ key # post \<and> breaching d ?m key \<and>
          (\<forall>k \<in> set pre. \<not> breaching d ?m k)"
      using split_list_first_prop [of order "breaching d ?m"] by blast
  qed
  from a b c e show ?thesis by blast
qed

lemma Detect_first_match_example:
  "range_order [''mem:x'', ''cpu:a'', ''cpu:default:nginx'', ''cpu:b''] (Metrics mixed_input) \<and>
   breaching detector_50 (entries (Metrics mixed_input)) ''cpu:default:nginx'' \<and>
   breaching detector_50 (entries (Metrics mixed_input)) ''cpu:b'' \<and>
   Detect detector_50 7 [''mem:x'', ''cpu:a'', ''cpu:default:nginx'', ''cpu:b''] mixed_input =
     (Some (signal_of detector_50 7 (entries (Metrics mixed_input)) ''cpu:default:nginx''), True) \<and>
   IncidentSignal.Resource (signal_of detector_50 7 (entries (Metrics mixed_input)) ''cpu:default:nginx'')
     = ''nginx'' \<and>
   Detect (NewCPUSpikeDetector (Num 1000)) 7 [''mem:x'', ''cpu:a'', ''cpu:default:nginx'', ''cpu:b'']
     mixed_input = (None, False)"
proof -
  let ?order = "[''mem:x'', ''cpu:a'', ''cpu:default:nginx'', ''cpu:b'']"
  have r: "range_order ?order (Metrics mixed_input)"
    by (auto simp: range_order_def mixed_input_def)
  have s: "?order = [''mem:x'', ''cpu:a''] @ ''cpu:default:nginx'' # [''cpu:b'']"
    by simp
  have p: "\<forall>k \<in> set [''mem:x'', ''cpu:a'']. \<not> breaching detector_50 (entries (Metrics mixed_input)) k"
    using breaching_mixed(1,2) by simp
  from Detect_first_match [OF r, of detector_50 7]
  have "?order = [''mem:x'', ''cpu:a''] @ ''cpu:default:nginx'' # [''cpu:b''] \<and>
      breaching detector_50 (entries (Metrics mixed_input)) ''cpu:default:nginx'' \<and>
      (\<forall>k \<in> set [''mem:x'', ''cpu:a'']. \<not> breaching detector_50 (entries (Metrics mixed_input)) k) \<longrightarrow>
      Detect detector_50 7 ?order mixed_input =
        (Some (signal_of detector_50 7 (entries (Metrics mixed_input)) ''cpu:default:nginx''), True)"
    by blast
  with s p breaching_mixed(3)
  have d: "Detect detector_50 7 ?order mixed_input =
        (Some (signal_of detector_50 7 (entries (Metrics mixed_input)) ''cpu:default:nginx''), True)"
    by blast
  have n: "IncidentSignal.Resource (signal_of detector_50 7 (entries (Metrics mixed_input)) ''cpu:default:nginx'')
     = ''nginx''"
    by (simp add: signal_of_def spike_signal_def parseKey_def)
  have q: "Detect (NewCPUSpikeDetector (Num 1000)) 7 ?order mixed_input = (None, False)"
    using Detect_first_match [OF r, of "NewCPUSpikeDetector (Num 1000)" 7] not_breaching_1000
    by blast
  from r breaching_mixed(3,4) d n q show ?thesis
    by blast
qed


text \<open>
  C10.  \<open>Detect\<close> returns either no signal with the flag \<open>False\<close>, or a signal with the
  flag \<open>True\<close>; the signal then has the type \<open>cpu_spike\<close> and its metadata is a map with
  the keys \<^verbatim>\<open>average_cpu_millicores\<close> and \<^verbatim>\<open>threshold_millicores\<close>.
\<close>

theorem Detect_well_formed:
  "(case Detect d now order input of
      (None, found) \<Rightarrow> \<not> found
    | (Some s, found) \<Rightarrow>
        found \<and> IncidentSignal.Type s = SignalCPUSpike \<and>
        (\<exists>md. IncidentSignal.Metadata s = GoMap md \<and>
           md ''average_cpu_millicores'' \<noteq> None \<and> md ''threshold_millicores'' \<noteq> None))"
  by (simp add: Detect_def Detect_loop_find signal_of_def spike_signal_def
      split: option.splits prod.splits)

theorem Detect_well_formed_witness:
  "Detect detector_50 0 [''cpu:a'', ''cpu:b''] two_spikes
     = (Some (signal_of detector_50 0 (entries (Metrics two_spikes)) ''cpu:a''), True) \<and>
   IncidentSignal.Type (signal_of detector_50 0 (entries (Metrics two_spikes)) ''cpu:a'') = SignalCPUSpike \<and>
   Detect detector_50 0 [] \<lparr>Metrics = NilMap, SignalInput.Labels = NilMap\<rparr> = (None, False)"
proof -
  have a: "Detect detector_50 0 [''cpu:a'', ''cpu:b''] two_spikes
     = (Some (signal_of detector_50 0 (entries (Metrics two_spikes)) ''cpu:a''), True)"
    by (simp add: Detect_def two_spikes_def signal_of_def detector_50_def NewCPUSpikeDetector_def
        average_examples fgt_def flt_def)
  have b: "Detect detector_50 0 [] \<lparr>Metrics = NilMap, SignalInput.Labels = NilMap\<rparr> = (None, False)"
    by (simp add: Detect_def)
  show ?thesis
    using Detect_well_formed [of detector_50 0 "[''cpu:a'', ''cpu:b'']" two_spikes]
      Detect_well_formed [of detector_50 0 "[]" "\<lparr>Metrics = NilMap, SignalInput.Labels = NilMap\<rparr>"]
    by (simp add: a b)
qed

text \<open>
  C3.  As stated the claim fails: two invocations on the same input with the same
  threshold return different signals when the run-time system hands out the keys of
  the map in a different order, or when the clock has advanced.
\<close>

theorem Detect_determinism_counterexample:
  "range_order [''cpu:a'', ''cpu:b''] (Metrics two_spikes) \<and>
   range_order [''cpu:b'', ''cpu:a''] (Metrics two_spikes) \<and>
   Detect detector_50 0 [''cpu:a'', ''cpu:b''] two_spikes
     \<noteq> Detect detector_50 0 [''cpu:b'', ''cpu:a''] two_spikes \<and>
   Detect detector_50 0 [''cpu:a'', ''cpu:b''] two_spikes
     \<noteq> Detect detector_50 1 [''cpu:a'', ''cpu:b''] two_spikes"
proof -
  have r: "range_order [''cpu:a'', ''cpu:b''] (Metrics two_spikes)"
    "range_order [''cpu:b'', ''cpu:a''] (Metrics two_spikes)"
    by (auto simp: range_order_def two_spikes_def)
  have a: "Detect detector_50 now [''cpu:a'', ''cpu:b''] two_spikes
     = (Some (spike_signal detector_50 now ''cpu:a'' (Num 100)), True)" for now
    by (simp add: Detect_def two_spikes_def detector_50_def NewCPUSpikeDetector_def
        average_examples fgt_def flt_def)
  have b: "Detect detector_50 now [''cpu:b'', ''cpu:a''] two_spikes
     = (Some (spike_signal detector_50 now ''cpu:b'' (Num 100)), True)" for now
    by (simp add: Detect_def two_spikes_def detector_50_def NewCPUSpikeDetector_def
        average_examples fgt_def flt_def)
  have "IncidentSignal.Resource (spike_signal d now ''cpu:a'' x)
      \<noteq> IncidentSignal.Resource (spike_signal d now ''cpu:b'' x)" for d now x
    by (simp add: spike_signal_def parseKey_def)
  then have c: "spike_signal d now ''cpu:a'' x \<noteq> spike_signal d now ''cpu:b'' x" for d now x
    by metis
  have "IncidentSignal.Timestamp (spike_signal d 0 k x)
      \<noteq> IncidentSignal.Timestamp (spike_signal d 1 k x)" for d k x
    by (simp add: spike_signal_def split: prod.splits)
  then have e: "spike_signal d 0 k x \<noteq> spike_signal d 1 k x" for d k x
    by metis
  show ?thesis
    using r by (simp add: a b c e)
qed

text \<open>
  C3, amended.  Whether a signal is found depends on the input and the threshold only.
  The signal itself also carries the reading of the clock and, when several keys
  breach, depends on which of them the iteration reaches first: when at most one key
  breaches, any two invocations return signals that agree except for the timestamp,
  and with the same iteration order and the same clock reading they return the same
  pair.
\<close>

theorem Detect_found_deterministic:
  assumes "range_order order1 (Metrics input)" and "range_order order2 (Metrics input)"
  shows "snd (Detect d now1 order1 input) = snd (Detect d now2 order2 input) \<and>
    ((\<forall>k k'. breaching d (entries (Metrics input)) k \<and> breaching d (entries (Metrics input)) k'
        \<longrightarrow> k = k') \<longrightarrow>
       map_option (\<lambda>s. s\<lparr>IncidentSignal.Timestamp := 0\<rparr>) (fst (Detect d now1 order1 input))
       = map_option (\<lambda>s. s\<lparr>IncidentSignal.Timestamp := 0\<rparr>) (fst (Detect d now2 order2 input))) \<and>
    (order1 = order2 \<and> now1 = now2 \<longrightarrow> Detect d now1 order1 input = Detect d now2 order2 input)"
proof -
  let ?m = "entries (Metrics input)"
  have s: "set order1 = set order2"
    using assms by (simp add: range_order_def)
  have "(find (breaching d ?m) order1 = None) = (find (breaching d ?m) order2 = None)"
    using s by (simp add: find_None_iff)
  then have 1: "snd (Detect d now1 order1 input) = snd (Detect d now2 order2 input)"
    by (auto simp: Detect_def Detect_loop_find split: option.splits)
  have 2: "map_option (\<lambda>s. s\<lparr>IncidentSignal.Timestamp := 0\<rparr>) (fst (Detect d now1 order1 input))
       = map_option (\<lambda>s. s\<lparr>IncidentSignal.Timestamp := 0\<rparr>) (fst (Detect d now2 order2 input))"
    if "\<forall>k k'. breaching d ?m k \<and> breaching d ?m k' \<longrightarrow> k = k'"
    using find_unique [OF that s]
    by (simp add: Detect_def Detect_loop_find signal_of_Timestamp split: option.splits)
  from 1 2 show ?thesis by blast
qed

theorem Detect_found_deterministic_witness:
  "range_order [''mem:x'', ''cpu:a'', ''cpu:default:nginx'', ''cpu:b''] (Metrics mixed_input) \<and>
   range_order [''cpu:b'', ''cpu:default:nginx'', ''cpu:a'', ''mem:x''] (Metrics mixed_input) \<and>
   snd (Detect detector_50 3 [''mem:x'', ''cpu:a'', ''cpu:default:nginx'', ''cpu:b''] mixed_input)
     = snd (Detect detector_50 4 [''cpu:b'', ''cpu:default:nginx'', ''cpu:a'', ''mem:x''] mixed_input) \<and>
   snd (Detect detector_50 3 [''mem:x'', ''cpu:a'', ''cpu:default:nginx'', ''cpu:b''] mixed_input) \<and>
   map_option (\<lambda>s. s\<lparr>IncidentSignal.Timestamp := 0\<rparr>)
     (fst (Detect (NewCPUSpikeDetector (Num 100)) 3
        [''mem:x'', ''cpu:a'', ''cpu:default:nginx'', ''cpu:b''] mixed_input))
   = map_option (\<lambda>s. s\<lparr>IncidentSignal.Timestamp := 0\<rparr>)
     (fst (Detect (NewCPUSpikeDetector (Num 100)) 4
        [''cpu:b'', ''cpu:default:nginx'', ''cpu:a'', ''mem:x''] mixed_input))"
proof -
  have r: "range_order [''mem:x'', ''cpu:a'', ''cpu:default:nginx'', ''cpu:b''] (Metrics mixed_input)"
    "range_order [''cpu:b'', ''cpu:default:nginx'', ''cpu:a'', ''mem:x''] (Metrics mixed_input)"
    by (auto simp: range_order_def mixed_input_def)
  have t: "snd (Detect detector_50 3 [''mem:x'', ''cpu:a'', ''cpu:default:nginx'', ''cpu:b''] mixed_input)"
    using breaching_mixed by (simp add: Detect_def Detect_loop_find)
  have u: "\<forall>k k'. breaching (NewCPUSpikeDetector (Num 100)) (entries (Metrics mixed_input)) k \<and>
      breaching (NewCPUSpikeDetector (Num 100)) (entries (Metrics mixed_input)) k' \<longrightarrow> k = k'"
    by (simp add: breaching_100)
  show ?thesis
    using r t u Detect_found_deterministic [OF r, of detector_50 3 4]
      Detect_found_deterministic [OF r, of "NewCPUSpikeDetector (Num 100)" 3 4]
    by blast
qed

text \<open>
  C8.  \<open>parseKey\<close> splits the key at every colon: three pieces give the second and the
  third, two pieces give the empty namespace and the second, any other number of pieces
  gives the empty namespace and \<^verbatim>\<open>unknown\<close>.  In terms of the key: pieces \<open>a\<close>, \<open>b\<close>,
  \<open>c\<close> without a colon are recovered from \<open>a:b:c\<close> and from \<open>a:b\<close>.
\<close>

theorem parseKey_parts:
  "(length (Split key CHR '':'') = 3 \<longrightarrow>
      parseKey key = (Split key CHR '':'' ! 1, Split key CHR '':'' ! 2)) \<and>
   (length (Split key CHR '':'') = 2 \<longrightarrow> parseKey key = ([], Split key CHR '':'' ! 1)) \<and>
   (length (Split key CHR '':'') \<noteq> 3 \<and> length (Split key CHR '':'') \<noteq> 2 \<longrightarrow>
      parseKey key = ([], ''unknown'')) \<and>
   (CHR '':'' \<notin> set a \<and> CHR '':'' \<notin> set b \<and> CHR '':'' \<notin> set c \<longrightarrow>
      parseKey (a @ '':'' @ b @ '':'' @ c) = (b, c) \<and> parseKey (a @ '':'' @ b) = ([], b)
      \<and> parseKey a = ([], ''unknown'')) \<and>
   parseKey ''cpu:default:nginx'' = (''default'', ''nginx'') \<and>
   parseKey ''cpu:nginx'' = ([], ''nginx'') \<and>
   parseKey ''bad'' = ([], ''unknown'')"
  by (simp add: parseKey_def Let_def Split_append Split_no_sep)

theorem parseKey_parts_witness:
  "length (Split ''cpu:kube-system:coredns'' CHR '':'') = 3 \<and>
   parseKey ''cpu:kube-system:coredns'' = (''kube-system'', ''coredns'') \<and>
   length (Split ''cpu:etcd'' CHR '':'') = 2 \<and> parseKey ''cpu:etcd'' = ([], ''etcd'') \<and>
   length (Split ''a:b:c:d'' CHR '':'') = 4 \<and> parseKey ''a:b:c:d'' = ([], ''unknown'')"
  using parseKey_parts [of "''cpu:kube-system:coredns''" "''cpu''" "''kube-system''" "''coredns''"]
    parseKey_parts [of "''cpu:etcd''" "''cpu''" "''etcd''" "[]"]
    parseKey_parts [of "''a:b:c:d''" "[]" "[]" "[]"]
  by simp

text \<open>
  C2.  The severity is \<open>critical\<close>, \<open>high\<close> or \<open>medium\<close> when the average is at least the
  float64 product of the threshold and \<^verbatim>\<open>1.5\<close>, \<^verbatim>\<open>1.2\<close> or \<^verbatim>\<open>1.1\<close>, the first that
  applies, and \<open>low\<close> otherwise.  That product is rounded: for the threshold \<^verbatim>\<open>50.0\<close>
  the medium cutoff \<^verbatim>\<open>50.0 * 1.1\<close> is \<open>55 + 2^(-47)\<close>, above \<open>55\<close>, so the average
  \<^verbatim>\<open>55.0\<close> is classified \<open>low\<close> and not \<open>medium\<close>.  The other rows of the table hold.
\<close>

theorem ClassifySeverity_table:
  "f64 50 = Num 50 \<and> f64 55 = Num 55 \<and>
   fmul (f64 50) (f64 (11 / 10)) = Num (55 + 1 / 2 ^ 47) \<and>
   ClassifySeverity (f64 55) (f64 50) = SeverityLow \<and>
   ClassifySeverity (f64 (5001 / 100)) (f64 50) = SeverityLow \<and>
   ClassifySeverity (f64 60) (f64 50) = SeverityHigh \<and>
   ClassifySeverity (f64 75) (f64 50) = SeverityCritical"
  by (simp add: f64_def [of "numeral w" for w] ClassifySeverity_def fge_def fle_def
      cutoff_critical_50 cutoff_high_50 cutoff_medium_50 f64_5001_100)

section \<open>Properties of the aggregator\<close>

lemma foldl_aggregate_step_fst:
  "fst (foldl aggregate_step (agg, lab) ms) k =
     (if values_of k ms = [] then agg k
      else Some ((case agg k of None \<Rightarrow> [] | Some vs \<Rightarrow> vs) @ values_of k ms))"
proof (induction ms arbitrary: agg lab)
  case Nil
  then show ?case by (simp add: values_of_def)
next
  case (Cons m ms)
  have step: "aggregate_step (agg, lab) m =
      (agg(buildMetricKey m \<mapsto> (case agg (buildMetricKey m) of None \<Rightarrow> [] | Some vs \<Rightarrow> vs) @ [Value m]),
       lab ++ entries (Metric.Labels m))"
    by (simp add: aggregate_step_def Let_def)
  show ?case
    unfolding foldl_Cons step Cons.IH by (simp add: values_of_def)
qed

lemma values_of_Nil_iff: "values_of k ms = [] \<longleftrightarrow> k \<notin> buildMetricKey ` set ms"
  by (auto simp: values_of_def filter_empty_conv)

lemma AggregateMetrics_entries:
  "entries (Metrics (AggregateMetrics ms)) k =
     (if k \<in> buildMetricKey ` set ms then Some (values_of k ms) else None)"
proof -
  obtain agg lab where f: "foldl aggregate_step (Map.empty, Map.empty) ms = (agg, lab)"
    by (cases "foldl aggregate_step (Map.empty, Map.empty) ms")
  have "agg k = fst (foldl aggregate_step (Map.empty, Map.empty) ms) k"
    by (simp add: f)
  also have "\<dots> = (if values_of k ms = [] then None else Some (values_of k ms))"
    by (simp add: foldl_aggregate_step_fst)
  finally show ?thesis
    by (simp add: AggregateMetrics_def f values_of_Nil_iff)
qed

lemma AggregateMetrics_dom:
  "dom (entries (Metrics (AggregateMetrics ms))) = buildMetricKey ` set ms"
  by (auto simp: dom_def AggregateMetrics_entries)

text \<open>
  C7.  In the result of \<open>AggregateMetrics\<close> the sequence stored under a key is the
  values of the metrics with that key, in the order of the input, and a key of no
  metric is absent.  For the empty input both maps of the result are empty, and for
  every input both are maps and not \<^verbatim>\<open>nil\<close>.  The function returns its result and
  reads its argument only: it is a function of the input.
\<close>

theorem AggregateMetrics_order:
  "entries (Metrics (AggregateMetrics metrics)) key =
     (if key \<in> buildMetricKey ` set metrics
      then Some (map Value (filter (\<lambda>m. buildMetricKey m = key) metrics)) else None) \<and>
   AggregateMetrics [] = \<lparr>Metrics = GoMap Map.empty, SignalInput.Labels = GoMap Map.empty\<rparr> \<and>
   Metrics (AggregateMetrics metrics) \<noteq> NilMap \<and>
   SignalInput.Labels (AggregateMetrics metrics) \<noteq> NilMap"
  by (simp add: AggregateMetrics_entries values_of_def)
     (simp add: AggregateMetrics_def split: prod.splits)

theorem AggregateMetrics_order_witness:
  "entries (Metrics (AggregateMetrics [nginx_sample 95, etcd_sample 7, nginx_sample 96, nginx_sample 94]))
     ''cpu:default:nginx'' = Some [Num 95, Num 96, Num 94] \<and>
   entries (Metrics (AggregateMetrics [nginx_sample 95, etcd_sample 7, nginx_sample 96, nginx_sample 94]))
     ''cpu:etcd'' = Some [Num 7] \<and>
   entries (Metrics (AggregateMetrics [nginx_sample 95, etcd_sample 7, nginx_sample 96, nginx_sample 94]))
     ''cpu:nginx'' = None"
  using AggregateMetrics_order [of "[nginx_sample 95, etcd_sample 7, nginx_sample 96, nginx_sample 94]" "''cpu:default:nginx''"]
    AggregateMetrics_order [of "[nginx_sample 95, etcd_sample 7, nginx_sample 96, nginx_sample 94]" "''cpu:etcd''"]
    AggregateMetrics_order [of "[nginx_sample 95, etcd_sample 7, nginx_sample 96, nginx_sample 94]" "''cpu:nginx''"]
  by (simp add: buildMetricKey_def nginx_sample_def etcd_sample_def)

lemma Split_key:
  assumes "colon_free m"
  shows "Split (buildMetricKey m) CHR '':'' =
    (if Metric.Namespace m \<noteq> [] then [Metric.Type m, Metric.Namespace m, Metric.Resource m]
     else [Metric.Type m, Metric.Resource m])"
  using assms by (simp add: buildMetricKey_def colon_free_def Split_append Split_no_sep)

lemma key_inj:
  assumes "colon_free m1" "colon_free m2" "buildMetricKey m1 = buildMetricKey m2"
  shows "triple m1 = triple m2"
proof -
  have "Split (buildMetricKey m1) CHR '':'' = Split (buildMetricKey m2) CHR '':''"
    using assms(3) by simp
  then show ?thesis
    unfolding Split_key [OF assms(1)] Split_key [OF assms(2)]
    by (auto simp: triple_def split: if_splits)
qed

lemma key_of_triple: "triple m1 = triple m2 \<Longrightarrow> buildMetricKey m1 = buildMetricKey m2"
  by (simp add: triple_def buildMetricKey_def)

text \<open>
  C6.  As stated the claim fails: the fields are joined without escaping, so a colon
  inside a field moves the boundary.  The metric of kind \<^verbatim>\<open>cpu\<close> without namespace
  for the resource \<^verbatim>\<open>a:b\<close> and the metric of kind \<^verbatim>\<open>cpu\<close> in namespace \<^verbatim>\<open>a\<close> for the
  resource \<^verbatim>\<open>b\<close> have the same key \<^verbatim>\<open>cpu:a:b\<close>, and their aggregation has one key for
  two triples.
\<close>

theorem buildMetricKey_collision:
  "buildMetricKey metric_flat = ''cpu:a:b'' \<and> buildMetricKey metric_nested = ''cpu:a:b'' \<and>
   triple metric_flat \<noteq> triple metric_nested \<and>
   card (dom (entries (Metrics (AggregateMetrics [metric_flat, metric_nested])))) = 1 \<and>
   card (triple ` set [metric_flat, metric_nested]) = 2"
  by (simp add: AggregateMetrics_dom buildMetricKey_def triple_def metric_flat_def metric_nested_def)

text \<open>
  C6, amended.  Metrics with equal (kind, namespace, resource) triples have equal keys.
  For metrics none of whose three fields contains a colon the converse holds as well:
  two of them have the same key if and only if their triples are equal, and the number
  of keys of an aggregation of such metrics is the number of distinct triples of the
  input.
\<close>

theorem buildMetricKey_injective:
  "(triple m1 = triple m2 \<longrightarrow> buildMetricKey m1 = buildMetricKey m2) \<and>
   (colon_free m1 \<and> colon_free m2 \<longrightarrow>
      (buildMetricKey m1 = buildMetricKey m2 \<longleftrightarrow> triple m1 = triple m2)) \<and>
   ((\<forall>m \<in> set metrics. colon_free m) \<longrightarrow>
      card (dom (entries (Metrics (AggregateMetrics metrics)))) = card (triple ` set metrics))"
proof -
  have "card (buildMetricKey ` set metrics) = card (triple ` set metrics)"
    if "\<forall>m \<in> set metrics. colon_free m"
  proof (rule bij_betw_same_card [symmetric])
    define f where "f = (\<lambda>t. buildMetricKey (SOME m. m \<in> set metrics \<and> triple m = t))"
    have f: "f (triple m) = buildMetricKey m" if "m \<in> set metrics" for m
    proof -
      have "(SOME m'. m' \<in> set metrics \<and> triple m' = triple m) \<in> set metrics \<and>
            triple (SOME m'. m' \<in> set metrics \<and> triple m' = triple m) = triple m"
        using that by (intro someI [of "\<lambda>m'. m' \<in> set metrics \<and> triple m' = triple m" m]) simp
      then show ?thesis
        unfolding f_def by (intro key_of_triple) simp
    qed
    show "bij_betw f (triple ` set metrics) (buildMetricKey ` set metrics)"
      unfolding bij_betw_def
    proof
      show "inj_on f (triple ` set metrics)"
        using that by (auto simp: inj_on_def f dest: key_inj)
      show "f ` triple ` set metrics = buildMetricKey ` set metrics"
        by (auto simp: f image_iff)
    qed
  qed
  then show ?thesis
    by (auto simp: AggregateMetrics_dom dest: key_inj key_of_triple)
qed

theorem buildMetricKey_injective_witness:
  "colon_free (nginx_sample 95) \<and> colon_free (etcd_sample 7) \<and> colon_free (nginx_sample 96) \<and>
   buildMetricKey (nginx_sample 95) = buildMetricKey (nginx_sample 96) \<and>
   triple (nginx_sample 95) = triple (nginx_sample 96) \<and>
   buildMetricKey (nginx_sample 95) \<noteq> buildMetricKey (etcd_sample 7) \<and>
   card (dom (entries (Metrics (AggregateMetrics [nginx_sample 95, etcd_sample 7, nginx_sample 96])))) = 2 \<and>
   card (triple ` set [nginx_sample 95, etcd_sample 7, nginx_sample 96]) = 2"
proof -
  have c: "colon_free (nginx_sample v)" "colon_free (etcd_sample v)" for v
    by (simp_all add: colon_free_def nginx_sample_def etcd_sample_def)
  have t: "triple (nginx_sample 95) = triple (nginx_sample 96)"
    "triple (nginx_sample 95) \<noteq> triple (etcd_sample 7)"
    by (simp_all add: triple_def nginx_sample_def etcd_sample_def)
  have "triple ` set [nginx_sample 95, etcd_sample 7, nginx_sample 96]
      = {(''cpu'', ''default'', ''nginx''), (''cpu'', [], ''etcd'')}"
    by (auto simp: triple_def nginx_sample_def etcd_sample_def)
  then have n: "card (triple ` set [nginx_sample 95, etcd_sample 7, nginx_sample 96]) = 2"
    by simp
  show ?thesis
    using c t n
      buildMetricKey_injective [of "nginx_sample 95" "nginx_sample 96"
        "[nginx_sample 95, etcd_sample 7, nginx_sample 96]"]
      buildMetricKey_injective [of "nginx_sample 95" "etcd_sample 7" "[]"]
    by simp
qed

section \<open>Properties of the configuration check\<close>

lemma fgt_not_fle: "fgt x y \<Longrightarrow> \<not> fle x y"
  by (auto simp: fgt_def flt_def fle_def)

lemma f64_0: "f64 0 = Zero False"
  by (simp add: f64_def round_f64_def)

lemma good_config_fields:
  "0 < sint (PollInterval good_config)" "0 < sint (EventTimeout good_config)"
  "fgt (CPUThreshold good_config) (f64 0)"
  by (simp_all add: good_config_def f64_0 fgt_def flt_def)

text \<open>What \<open>validate\<close> decides when the threshold compares with zero: it ends the
  process with a fatal message whenever the sink address is empty, the poll interval is
  at most zero, the publish timeout is at most zero, the HTTP port is empty, or the
  threshold is at most zero, and it passes when both strings are not empty and the two
  durations and the threshold are greater than zero.\<close>

lemma validate_checks:
  "(EventSinkURL cfg = [] \<or> sint (PollInterval cfg) \<le> 0 \<or> sint (EventTimeout cfg) \<le> 0 \<or>
    HTTPPort cfg = [] \<or> fle (CPUThreshold cfg) (f64 0) \<longrightarrow>
      (\<exists>msg. validate cfg = Inl (Fatal msg))) \<and>
   (EventSinkURL cfg \<noteq> [] \<and> 0 < sint (PollInterval cfg) \<and> 0 < sint (EventTimeout cfg) \<and>
    HTTPPort cfg \<noteq> [] \<and> fgt (CPUThreshold cfg) (f64 0) \<longrightarrow>
      validate cfg = Inr ())"
  by (auto simp: validate_def dest: fgt_not_fle)

text \<open>
  C5.  \<open>validate\<close> accepts a detector threshold that is not greater than zero.  With
  \<^verbatim>\<open>CPU_THRESHOLD=NaN\<close> and every other variable unset, \<^verbatim>\<open>Load\<close> builds the
  configuration of the defaults with the threshold NaN, which \<^verbatim>\<open>strconv.ParseFloat\<close>
  returns without an error.  That threshold is not greater than zero; it is not at most
  zero either, so the check \<^verbatim>\<open>cfg.CPUThreshold <= 0\<close> is false and validation passes,
  against the message of that check, \<^verbatim>\<open>CPU_THRESHOLD must be greater than 0\<close>.
\<close>

theorem validate_NaN_threshold:
  "CPUThreshold (good_config\<lparr>CPUThreshold := NaN\<rparr>) = NaN \<and>
   \<not> fgt (CPUThreshold (good_config\<lparr>CPUThreshold := NaN\<rparr>)) (f64 0) \<and>
   \<not> fle (CPUThreshold (good_config\<lparr>CPUThreshold := NaN\<rparr>)) (f64 0) \<and>
   validate (good_config\<lparr>CPUThreshold := NaN\<rparr>) = Inr ()"
  using good_config_fields(1,2)
  by (simp add: validate_def fgt_def flt_def fle_def) (simp add: good_config_def)

section \<open>Properties of the publisher\<close>

lemma Publish_fst:
  "fst (Publish p net (Some sig)) =
     (case Marshal net (event_of p net sig) of
        Inl err \<Rightarrow> Return (Some (MarshalFailed err))
      | Inr body \<Rightarrow>
          (case NewRequestWithContext net ''POST'' (sinkURL p) body of
             Inl err \<Rightarrow> Return (Some (CreateRequestFailed err))
           | Inr req \<Rightarrow>
               (case Do net (req\<lparr>Header := (Header req)(''Content-Type'' \<mapsto> ''application/json'')\<rparr>) of
                  Inl err \<Rightarrow> Return (Some (PublishFailed err))
                | Inr resp \<Rightarrow>
                    if StatusCode resp < 200 \<or> 300 \<le> StatusCode resp
                    then Return (Some (UnexpectedStatus (StatusCode resp)))
                    else Return None)))"
  by (simp add: Publish_def split: sum.splits)

text \<open>
  C4.  As stated the claim fails: \<open>Publish\<close> also returns an error when the request
  cannot be built.  With the sink address \<^verbatim>\<open>:\<close>, which passes the configuration check
  and has no scheme, \<open>Publish\<close> returns the error of the request constructor, and no
  HTTP exchange has taken place: there is neither a transport error nor a status.
\<close>

theorem Publish_no_exchange_counterexample:
  "Publish \<lparr>sinkURL = '':'', source = ''telemetry-service''\<rparr> plain_text_net (Some nginx_spike)
     = (Return (Some (CreateRequestFailed ''missing protocol scheme'')), []) \<and>
   exchange \<lparr>sinkURL = '':'', source = ''telemetry-service''\<rparr> plain_text_net nginx_spike = None"
  by (simp add: Publish_def exchange_def plain_text_net_def)

text \<open>
  C4, amended.  For a signal that is not \<^verbatim>\<open>nil\<close>, \<open>Publish\<close> returns; it returns no
  error exactly when the exchange took place and ended with a status from 200 to 299,
  and it returns an error exactly when marshalling the event failed, or building the
  request failed, or the exchange failed in transport, or the status is outside 200 to
  299.  What decoding the body of the response gives does not change the result.
\<close>

theorem Publish_error_iff:
  "(fst (Publish p net (Some sig)) = Return None \<longleftrightarrow>
      (\<exists>resp. exchange p net sig = Some (Inr resp) \<and>
         200 \<le> StatusCode resp \<and> StatusCode resp < 300)) \<and>
   ((\<exists>e. fst (Publish p net (Some sig)) = Return (Some e)) \<longleftrightarrow>
      (\<exists>err. Marshal net (event_of p net sig) = Inl err) \<or>
      (\<exists>body err. Marshal net (event_of p net sig) = Inr body \<and>
         NewRequestWithContext net ''POST'' (sinkURL p) body = Inl err) \<or>
      (\<exists>err. exchange p net sig = Some (Inl err)) \<or>
      (\<exists>resp. exchange p net sig = Some (Inr resp) \<and>
         (StatusCode resp < 200 \<or> 300 \<le> StatusCode resp))) \<and>
   fst (Publish p net (Some sig)) \<noteq> Panic \<and>
   fst (Publish p (net\<lparr>Decode := decode\<rparr>) (Some sig)) = fst (Publish p net (Some sig))"
proof -
  let ?r = "fst (Publish p net (Some sig))"
  have 1: "?r = Return None \<longleftrightarrow>
      (\<exists>resp. exchange p net sig = Some (Inr resp) \<and>
         200 \<le> StatusCode resp \<and> StatusCode resp < 300)"
    by (auto simp: Publish_fst exchange_def split: sum.splits)
  have 2: "(\<exists>e. ?r = Return (Some e)) \<longleftrightarrow>
      (\<exists>err. Marshal net (event_of p net sig) = Inl err) \<or>
      (\<exists>body err. Marshal net (event_of p net sig) = Inr body \<and>
         NewRequestWithContext net ''POST'' (sinkURL p) body = Inl err) \<or>
      (\<exists>err. exchange p net sig = Some (Inl err)) \<or>
      (\<exists>resp. exchange p net sig = Some (Inr resp) \<and>
         (StatusCode resp < 200 \<or> 300 \<le> StatusCode resp))"
    by (auto simp: Publish_fst exchange_def split: sum.splits)
  have 3: "?r \<noteq> Panic"
    by (simp add: Publish_fst split: sum.splits)
  have "event_of p (net\<lparr>Decode := decode\<rparr>) sig = event_of p net sig"
    by (simp add: event_of_def)
  then have 4: "fst (Publish p (net\<lparr>Decode := decode\<rparr>) (Some sig)) = ?r"
    by (simp add: Publish_fst cong: sum.case_cong)
  from 1 2 3 4 show ?thesis
    by blast
qed

theorem Publish_error_iff_witness:
  "exchange \<lparr>sinkURL = ''http://agent-service/events'', source = ''telemetry-service''\<rparr>
     plain_text_net nginx_spike = Some (Inr \<lparr>StatusCode = 200, ResponseBody = ''OK''\<rparr>) \<and>
   Decode plain_text_net ''OK'' = Inl ''invalid character'' \<and>
   fst (Publish \<lparr>sinkURL = ''http://agent-service/events'', source = ''telemetry-service''\<rparr>
     plain_text_net (Some nginx_spike)) = Return None \<and>
   exchange \<lparr>sinkURL = ''http://agent-service/events'', source = ''telemetry-service''\<rparr>
     (plain_text_net\<lparr>Do := \<lambda>req. Inr \<lparr>StatusCode = 503, ResponseBody = []\<rparr>\<rparr>) nginx_spike
     = Some (Inr \<lparr>StatusCode = 503, ResponseBody = []\<rparr>) \<and>
   (\<exists>e. fst (Publish \<lparr>sinkURL = ''http://agent-service/events'', source = ''telemetry-service''\<rparr>
     (plain_text_net\<lparr>Do := \<lambda>req. Inr \<lparr>StatusCode = 503, ResponseBody = []\<rparr>\<rparr>) (Some nginx_spike))
     = Return (Some e))"
proof -
  let ?p = "\<lparr>sinkURL = ''http://agent-service/events'', source = ''telemetry-service''\<rparr>"
  let ?down = "plain_text_net\<lparr>Do := \<lambda>req. Inr \<lparr>StatusCode = 503, ResponseBody = []\<rparr>\<rparr>"
  have x: "exchange ?p plain_text_net nginx_spike = Some (Inr \<lparr>StatusCode = 200, ResponseBody = ''OK''\<rparr>)"
    by (simp add: exchange_def plain_text_net_def)
  have y: "exchange ?p ?down nginx_spike = Some (Inr \<lparr>StatusCode = 503, ResponseBody = []\<rparr>)"
    by (simp add: exchange_def plain_text_net_def)
  have d: "Decode plain_text_net ''OK'' = Inl ''invalid character''"
    by (simp add: plain_text_net_def)
  have a: "fst (Publish ?p plain_text_net (Some nginx_spike)) = Return None"
    using x Publish_error_iff [of ?p plain_text_net nginx_spike] by simp
  have b: "\<exists>e. fst (Publish ?p ?down (Some nginx_spike)) = Return (Some e)"
    using y Publish_error_iff [of ?p ?down nginx_spike] by simp
  from x y d a b show ?thesis
    by blast
qed

end
